theory Spec2Isabelle
  imports Complex_Main
begin

section \<open>Rank and cumulative probability (src/utils/mathUtils.ts)\<close>

text \<open>
  JavaScript numbers that carry probabilities are modelled as \<^typ>\<open>real\<close>, with exact
  arithmetic: there is no rounding and no \<^verbatim>\<open>NaN\<close> in the model.  Token ids, array indices
  and ranks are integers and are modelled as \<^typ>\<open>int\<close>.  The ranking code only compares
  probabilities, the accumulation only adds them.
\<close>

text \<open>The object literal \<^verbatim>\<open>{ prob, index }\<close> built by \<^verbatim>\<open>Array.from(probabilities).map(...)\<close>.\<close>

record ProbPair =
  prob :: real
  index :: int

definition probabilityPairs :: "real list \<Rightarrow> ProbPair list" where
  "probabilityPairs probabilities =
     map (\<lambda>(p, i). \<lparr>prob = p, index = int i\<rparr>) (zip probabilities [0..<length probabilities])"

text \<open>
  \<^verbatim>\<open>probabilityPairs.sort((a, b) => b.prob - a.prob)\<close>: the built-in sort is stable and the
  comparator puts \<open>a\<close> before \<open>b\<close> when \<open>a.prob > b.prob\<close>, that is an ascending stable
  sort on the negated probability.
\<close>

definition sortDescending :: "ProbPair list \<Rightarrow> ProbPair list" where
  "sortDescending pairs = sort_key (\<lambda>a. - prob a) pairs"

text \<open>\<^verbatim>\<open>Array.prototype.findIndex\<close>: the first index whose element satisfies the predicate, else \<open>-1\<close>.\<close>

fun findIndexFrom :: "('a \<Rightarrow> bool) \<Rightarrow> 'a list \<Rightarrow> int \<Rightarrow> int" where
  "findIndexFrom P [] k = -1"
| "findIndexFrom P (x # xs) k = (if P x then k else findIndexFrom P xs (k + 1))"

definition findIndex :: "('a \<Rightarrow> bool) \<Rightarrow> 'a list \<Rightarrow> int" where
  "findIndex P xs = findIndexFrom P xs 0"

definition calculateTokenRank :: "real list \<Rightarrow> int \<Rightarrow> int" where
  "calculateTokenRank probabilities targetTokenId =
     (let sortedPairs = sortDescending (probabilityPairs probabilities);
          rank = findIndex (\<lambda>pair. index pair = targetTokenId) sortedPairs
      in if rank = -1 then int (length probabilities) else rank)"

text \<open>
  The summation loop
  \<^verbatim>\<open>for (let i = 0; i < rank && i < probabilityPairs.length; i++) cumulativeProb += probabilityPairs[i].prob\<close>.
\<close>

function cumulativeLoop :: "ProbPair list \<Rightarrow> int \<Rightarrow> nat \<Rightarrow> real \<Rightarrow> real" where
  "cumulativeLoop pairs rank i cumulativeProb =
     (if int i < rank \<and> i < length pairs
      then cumulativeLoop pairs rank (i + 1) (cumulativeProb + prob (pairs ! i))
      else cumulativeProb)"
  by pat_completeness auto
termination
  by (relation "measure (\<lambda>(pairs, rank, i, c). length pairs - i)") auto

declare cumulativeLoop.simps [simp del]

definition calculateCumulativeProbability :: "real list \<Rightarrow> int \<Rightarrow> real" where
  "calculateCumulativeProbability probabilities rank =
     cumulativeLoop (sortDescending (probabilityPairs probabilities)) rank 0 0"

text \<open>\<^verbatim>\<open>calculateTopKAccuracy(ranks, k)\<close>.\<close>

definition calculateTopKAccuracy :: "int list \<Rightarrow> int \<Rightarrow> real" where
  "calculateTopKAccuracy ranks k =
     (if length ranks = 0 then 0
      else let topKCount = length (filter (\<lambda>rank. rank < k) ranks)
           in real topKCount / real (length ranks))"

text \<open>
  The object returned by \<^verbatim>\<open>calculateStatistics(values)\<close> of mathUtils.ts; its fields
  \<^verbatim>\<open>min\<close> and \<^verbatim>\<open>max\<close> are called \<open>min_value\<close> and \<open>max_value\<close> here.
\<close>

record Stats =
  mean :: real
  median :: real
  min_value :: real
  max_value :: real
  std :: real

definition calculateStatistics :: "real list \<Rightarrow> Stats" where
  "calculateStatistics values =
     (if length values = 0
      then \<lparr>mean = 0, median = 0, min_value = 0, max_value = 0, std = 0\<rparr>
      else
        let sortedValues = sort values;
            n = length sortedValues;
            meanValue = foldl (\<lambda>sum val. sum + val) 0 values / real (length values);
            medianValue =
              (if n mod 2 = 0
               then (sortedValues ! (n div 2 - 1) + sortedValues ! (n div 2)) / 2
               else sortedValues ! (n div 2));
            variance =
              foldl (\<lambda>sum val. sum + (val - meanValue) ^ 2) 0 values / real (length values)
        in \<lparr>mean = meanValue, median = medianValue, min_value = sortedValues ! 0,
            max_value = sortedValues ! (n - 1), std = sqrt variance\<rparr>)"

section \<open>Text preprocessing (src/utils/textUtils.ts)\<close>

text \<open>
  A \<^typ>\<open>char\<close> stands for one code unit below 256.  \<^verbatim>\<open>String.prototype.trim\<close> removes
  white space and line terminators; below 256 these are the seven characters of
  \<open>isTrimmed\<close>.
\<close>

definition LF :: char where "LF = CHR 0x0A"
definition CR :: char where "CR = CHR 0x0D"
definition TAB :: char where "TAB = CHR 0x09"
definition SP :: char where "SP = CHR 0x20"

fun replaceCRLF :: "string \<Rightarrow> string" where
  "replaceCRLF (c1 # c2 # cs) =
     (if c1 = CR \<and> c2 = LF then LF # replaceCRLF cs else c1 # replaceCRLF (c2 # cs))"
| "replaceCRLF cs = cs"

fun collapseSpaces :: "string \<Rightarrow> string" where
  "collapseSpaces (c1 # c2 # cs) =
     (if c1 = SP \<and> c2 = SP then collapseSpaces (c2 # cs) else c1 # collapseSpaces (c2 # cs))"
| "collapseSpaces cs = cs"

definition isTrimmed :: "char \<Rightarrow> bool" where
  "isTrimmed c \<longleftrightarrow> c \<in> {TAB, LF, CHR 0x0B, CHR 0x0C, CR, SP, CHR 0xA0}"

definition trim :: "string \<Rightarrow> string" where
  "trim s = rev (dropWhile isTrimmed (rev (dropWhile isTrimmed s)))"

definition preprocessText :: "string \<Rightarrow> string" where
  "preprocessText text =
     trim (collapseSpaces
       (map (\<lambda>c. if c = TAB then SP else c)
         (map (\<lambda>c. if c = CR then LF else c)
           (replaceCRLF text))))"

section \<open>Thrown values\<close>

text \<open>
  A thrown value is an error object with a name and a message; \<^verbatim>\<open>new Error(m)\<close> has the
  name \<open>Error\<close>.  \<open>errorToString\<close> is what a template literal \<^verbatim>\<open>${error}\<close> renders.
\<close>

datatype js_error = Thrown (errorName: string) (errorMessage: string)

abbreviation Error :: "string \<Rightarrow> js_error" where
  "Error m \<equiv> Thrown ''Error'' m"

definition errorToString :: "js_error \<Rightarrow> string" where
  "errorToString e =
     (if errorName e = [] then errorMessage e
      else if errorMessage e = [] then errorName e
      else errorName e @ '': '' @ errorMessage e)"

text \<open>Calling a property that is \<^verbatim>\<open>undefined\<close> throws a \<^verbatim>\<open>TypeError\<close>.\<close>

definition notAFunction :: "string \<Rightarrow> js_error" where
  "notAFunction what = Thrown ''TypeError'' (what @ '' is not a function'')"

text \<open>The decimal rendering of an integer, as \<^verbatim>\<open>${tokenId}\<close> gives it.\<close>

fun showNat :: "nat \<Rightarrow> string" where
  "showNat n =
     (if n < 10 then [''0123456789'' ! n]
      else showNat (n div 10) @ [''0123456789'' ! (n mod 10)])"

declare showNat.simps [simp del]

definition showInt :: "int \<Rightarrow> string" where
  "showInt n = (if n < 0 then CHR ''-'' # showNat (nat (- n)) else showNat (nat n))"

section \<open>TokenizerService\<close>

text \<open>
  The field \<^verbatim>\<open>tokenizer: any | null\<close> holds either the Transformers.js tokenizer or the
  fallback \<^verbatim>\<open>SimpleTokenizer\<close>.  The object is opaque: each of the three methods the
  service calls may be absent, and a present method returns a value or throws, as the
  synchronous methods of \<^verbatim>\<open>SimpleTokenizer\<close> do.
\<close>

record Tokenizer =
  tk_encode :: "(string \<Rightarrow> js_error + int list) option"
  tk_decode :: "(int list \<Rightarrow> js_error + string) option"
  tk_decodeToken :: "(int \<Rightarrow> js_error + string) option"

record TokenizerService =
  tokenizer :: "Tokenizer option"

definition notLoaded :: js_error where
  "notLoaded = Error ''Tokenizer not loaded. Call loadTokenizer() first.''"

definition encode :: "TokenizerService \<Rightarrow> string \<Rightarrow> js_error + int list" where
  "encode ts text =
     (case tokenizer ts of
        None \<Rightarrow> Inl notLoaded
      | Some tk \<Rightarrow>
          (case (case tk_encode tk of
                   Some enc \<Rightarrow> enc text
                 | None \<Rightarrow> Inl (notAFunction ''this.tokenizer.encode'')) of
             Inr result \<Rightarrow> Inr result
           | Inl error \<Rightarrow> Inl (Error (''Failed to tokenize text: '' @ errorToString error))))"

text \<open>
  The body of the \<^verbatim>\<open>try\<close> block of \<^verbatim>\<open>decodeToken\<close>: \<^verbatim>\<open>decode([tokenId], ...)\<close> when the
  tokenizer has a \<^verbatim>\<open>decode\<close>, else its \<^verbatim>\<open>decodeToken(tokenId)\<close>.
\<close>

definition decodeTokenTry :: "Tokenizer \<Rightarrow> int \<Rightarrow> js_error + string" where
  "decodeTokenTry tk tokenId =
     (case tk_decode tk of
        Some dec \<Rightarrow> dec [tokenId]
      | None \<Rightarrow>
          (case tk_decodeToken tk of
             Some dec1 \<Rightarrow> dec1 tokenId
           | None \<Rightarrow> Inl (notAFunction ''this.tokenizer.decodeToken'')))"

text \<open>
  \<^verbatim>\<open>decodeToken\<close>: the check that a tokenizer is loaded is before the \<^verbatim>\<open>try\<close> and throws;
  the \<^verbatim>\<open>catch\<close> returns the placeholder \<^verbatim>\<open>`<${tokenId}>`\<close>.
\<close>

definition decodeToken :: "TokenizerService \<Rightarrow> int \<Rightarrow> js_error + string" where
  "decodeToken ts tokenId =
     (case tokenizer ts of
        None \<Rightarrow> Inl notLoaded
      | Some tk \<Rightarrow>
          (case decodeTokenTry tk tokenId of
             Inr text \<Rightarrow> Inr text
           | Inl error \<Rightarrow> Inr (''<'' @ showInt tokenId @ ''>'')))"

section \<open>ModelService\<close>

text \<open>
  \<^verbatim>\<open>modelService.runInference(inputIds)\<close> runs the ONNX session, which is external: it is
  an oracle that, for a context, either throws or returns an \<^verbatim>\<open>InferenceResult\<close>, of
  which the analysis reads the field \<^verbatim>\<open>probabilities\<close> only.
\<close>

record ModelService =
  runInference :: "int list \<Rightarrow> js_error + real list"

section \<open>AnalysisEngine\<close>

record AnalysisResult =
  position :: nat
  token :: string
  tokenId :: int
  rank :: "int option"
  probability :: "real option"
  cumulativeProbability :: "real option"
  isInitial :: bool

record AnalysisStatistics =
  totalTokens :: nat
  predictedTokens :: nat
  top1Accuracy :: real
  top5Accuracy :: real
  top10Accuracy :: real
  averageRank :: real
  averageCumulativeProbability :: real
  medianRank :: real
  medianCumulativeProbability :: real

record AnalysisProgress =
  current :: nat
  total :: nat
  percentage :: real
  currentToken :: string

text \<open>Of \<^verbatim>\<open>AnalysisConfig\<close> the engine reads \<^verbatim>\<open>maxLength\<close> only.\<close>

record AnalysisConfig =
  maxLength :: "int option"

definition INITIAL_TOKENS_COUNT :: nat where
  "INITIAL_TOKENS_COUNT = 3"

text \<open>
  The two private fields of the engine.  A progress callback is an external function; it
  is identified by a number.
\<close>

type_synonym ProgressCallback = nat

record AnalysisEngine =
  isAnalyzing :: bool
  progressCallbacks :: "ProgressCallback list"

text \<open>
  What the engine does to the outside during a call, in order: the contexts passed to
  \<^verbatim>\<open>modelService.runInference\<close> and the progress objects handed to each callback.
\<close>

record Trace =
  inferenceCalls :: "int list list"
  delivered :: "(ProgressCallback \<times> AnalysisProgress) list"

text \<open>
  \<^verbatim>\<open>notifyProgress\<close> calls every registered callback inside its own \<^verbatim>\<open>try/catch\<close>, so
  a callback that throws is logged and the next one is still called.
\<close>

definition notifyProgress :: "AnalysisEngine \<Rightarrow> AnalysisProgress \<Rightarrow> Trace \<Rightarrow> Trace" where
  "notifyProgress eng progress tr =
     tr\<lparr>delivered := delivered tr @ map (\<lambda>callback. (callback, progress)) (progressCallbacks eng)\<rparr>"

definition tokenProgress :: "nat \<Rightarrow> int list \<Rightarrow> string \<Rightarrow> AnalysisProgress" where
  "tokenProgress i tokenIds tok =
     \<lparr>current = i + 1, total = length tokenIds,
      percentage = (real (i + 1) / real (length tokenIds)) * 100, currentToken = tok\<rparr>"

text \<open>The first loop of \<^verbatim>\<open>analyzeTokenSequence\<close>: initial tokens, no prediction.\<close>

function initialLoop ::
  "TokenizerService \<Rightarrow> AnalysisEngine \<Rightarrow> int list \<Rightarrow> nat \<Rightarrow> nat \<Rightarrow> AnalysisResult list \<Rightarrow> Trace
     \<Rightarrow> (js_error + AnalysisResult list) \<times> Trace" where
  "initialLoop ts eng tokenIds initialTokensCount i results tr =
     (if i < initialTokensCount then
        (case decodeToken ts (tokenIds ! i) of
           Inl error \<Rightarrow> (Inl error, tr)
         | Inr tok \<Rightarrow>
             initialLoop ts eng tokenIds initialTokensCount (i + 1)
               (results @ [\<lparr>position = i, token = tok, tokenId = tokenIds ! i, rank = None,
                            probability = None, cumulativeProbability = None, isInitial = True\<rparr>])
               (notifyProgress eng (tokenProgress i tokenIds tok) tr))
      else (Inr results, tr))"
  by pat_completeness auto
termination
  by (relation "measure (\<lambda>(ts, eng, tokenIds, n, i, results, tr). n - i)") auto

declare initialLoop.simps [simp del]

text \<open>
  The body of the \<^verbatim>\<open>try\<close> block for one predicted position and its \<^verbatim>\<open>catch\<close>:
  \<^verbatim>\<open>probabilities[targetTokenId] || 0\<close> is \<open>0\<close> when the id is not an index of the array.
\<close>

definition predictedResult ::
  "ModelService \<Rightarrow> int list \<Rightarrow> nat \<Rightarrow> string \<Rightarrow> AnalysisResult" where
  "predictedResult ms tokenIds i tok =
     (let contextTokens = take i tokenIds;
          targetTokenId = tokenIds ! i
      in case runInference ms contextTokens of
           Inr probabilities \<Rightarrow>
             (let rank = calculateTokenRank probabilities targetTokenId;
                  probability =
                    (if 0 \<le> targetTokenId \<and> targetTokenId < int (length probabilities)
                     then probabilities ! nat targetTokenId else 0);
                  cumulativeProbability = calculateCumulativeProbability probabilities rank
              in \<lparr>position = i, token = tok, tokenId = targetTokenId, rank = Some rank,
                  probability = Some probability,
                  cumulativeProbability = Some cumulativeProbability, isInitial = False\<rparr>)
         | Inl error \<Rightarrow>
             \<lparr>position = i, token = tok, tokenId = targetTokenId, rank = None,
              probability = None, cumulativeProbability = None, isInitial = False\<rparr>)"

text \<open>The second loop: every remaining position, with a prediction from its context.\<close>

function predictionLoop ::
  "TokenizerService \<Rightarrow> ModelService \<Rightarrow> AnalysisEngine \<Rightarrow> int list \<Rightarrow> nat \<Rightarrow> AnalysisResult list
     \<Rightarrow> Trace \<Rightarrow> (js_error + AnalysisResult list) \<times> Trace" where
  "predictionLoop ts ms eng tokenIds i results tr =
     (if i < length tokenIds then
        (case decodeToken ts (tokenIds ! i) of
           Inl error \<Rightarrow> (Inl error, tr)
         | Inr tok \<Rightarrow>
             predictionLoop ts ms eng tokenIds (i + 1)
               (results @ [predictedResult ms tokenIds i tok])
               (notifyProgress eng (tokenProgress i tokenIds tok)
                 (tr\<lparr>inferenceCalls := inferenceCalls tr @ [take i tokenIds]\<rparr>)))
      else (Inr results, tr))"
  by pat_completeness auto
termination
  by (relation "measure (\<lambda>(ts, ms, eng, tokenIds, i, results, tr). length tokenIds - i)") auto

declare predictionLoop.simps [simp del]

definition analyzeTokenSequence ::
  "TokenizerService \<Rightarrow> ModelService \<Rightarrow> AnalysisEngine \<Rightarrow> int list \<Rightarrow> Trace
     \<Rightarrow> (js_error + AnalysisResult list) \<times> Trace" where
  "analyzeTokenSequence ts ms eng tokenIds tr =
     (let initialTokensCount = min INITIAL_TOKENS_COUNT (length tokenIds)
      in case initialLoop ts eng tokenIds initialTokensCount 0 [] tr of
           (Inl error, tr1) \<Rightarrow> (Inl error, tr1)
         | (Inr results, tr1) \<Rightarrow>
             predictionLoop ts ms eng tokenIds initialTokensCount results tr1)"

text \<open>
  \<^verbatim>\<open>tokenIds.slice(0, maxLength)\<close>: a negative end counts from the end of the array.
\<close>

definition slice0 :: "'a list \<Rightarrow> int \<Rightarrow> 'a list" where
  "slice0 xs e =
     (let len = int (length xs);
          final = (if e < 0 then max (len + e) 0 else min e len)
      in take (nat final) xs)"

text \<open>The \<^verbatim>\<open>try\<close> block of \<^verbatim>\<open>analyzeText\<close>.\<close>

definition analyzeTextBody ::
  "TokenizerService \<Rightarrow> ModelService \<Rightarrow> AnalysisEngine \<Rightarrow> string \<Rightarrow> AnalysisConfig option \<Rightarrow> Trace
     \<Rightarrow> (js_error + AnalysisResult list) \<times> Trace" where
  "analyzeTextBody ts ms eng text config tr =
     (let cleanText = preprocessText text
      in if cleanText = [] then (Inl (Error ''Text is empty after preprocessing''), tr)
         else
           let tr1 = notifyProgress eng
                 \<lparr>current = 0, total = 100, percentage = 5, currentToken = ''Tokenizing...''\<rparr> tr
           in case encode ts cleanText of
                Inl error \<Rightarrow> (Inl error, tr1)
              | Inr tokenIds \<Rightarrow>
                  if length tokenIds = 0
                  then (Inl (Error ''No tokens generated from text''), tr1)
                  else
                    let limit =
                          (case config of
                             None \<Rightarrow> int (length tokenIds)
                           | Some c \<Rightarrow>
                               (case maxLength c of
                                  None \<Rightarrow> int (length tokenIds)
                                | Some m \<Rightarrow> if m = 0 then int (length tokenIds) else m));
                        limitedTokenIds = slice0 tokenIds limit;
                        tr2 = notifyProgress eng
                          \<lparr>current = 0, total = length limitedTokenIds, percentage = 10,
                           currentToken = ''Starting analysis...''\<rparr> tr1
                    in case analyzeTokenSequence ts ms eng limitedTokenIds tr2 of
                         (Inl error, tr3) \<Rightarrow> (Inl error, tr3)
                       | (Inr results, tr3) \<Rightarrow>
                           (Inr results,
                            notifyProgress eng
                              \<lparr>current = length limitedTokenIds, total = length limitedTokenIds,
                               percentage = 100, currentToken = ''Complete!''\<rparr> tr3))"

text \<open>
  \<^verbatim>\<open>analyzeText\<close>: the reentrancy check is before the \<^verbatim>\<open>try\<close>, so its error is thrown as
  it is and the \<^verbatim>\<open>finally\<close> block does not run.  An admitted call sets the flag and
  registers its callback (\<open>analyzeTextEnter\<close>, the state while the call is in flight); an
  error of the \<^verbatim>\<open>try\<close> block is rethrown with the prefix \<open>Analysis failed:\<close>, and the
  \<^verbatim>\<open>finally\<close> block then clears the flag and the callbacks.
\<close>

definition analyzeTextEnter :: "AnalysisEngine \<Rightarrow> ProgressCallback option \<Rightarrow> AnalysisEngine" where
  "analyzeTextEnter eng onProgress =
     eng\<lparr>isAnalyzing := True,
         progressCallbacks := progressCallbacks eng @
           (case onProgress of Some callback \<Rightarrow> [callback] | None \<Rightarrow> [])\<rparr>"

definition analyzeText ::
  "TokenizerService \<Rightarrow> ModelService \<Rightarrow> string \<Rightarrow> AnalysisConfig option \<Rightarrow> ProgressCallback option
     \<Rightarrow> AnalysisEngine \<times> Trace \<Rightarrow> (js_error + AnalysisResult list) \<times> AnalysisEngine \<times> Trace" where
  "analyzeText ts ms text config onProgress st =
     (case st of (eng, tr) \<Rightarrow>
        if isAnalyzing eng then (Inl (Error ''Analysis already in progress''), eng, tr)
        else
          let eng1 = analyzeTextEnter eng onProgress;
              eng2 = eng1\<lparr>isAnalyzing := False, progressCallbacks := []\<rparr>
          in case analyzeTextBody ts ms eng1 text config tr of
               (Inl error, tr1) \<Rightarrow>
                 (Inl (Error (''Analysis failed: '' @ errorMessage error)), eng2, tr1)
             | (Inr results, tr1) \<Rightarrow> (Inr results, eng2, tr1))"

text \<open>The method \<^verbatim>\<open>AnalysisEngine.calculateStatistics(results)\<close>.\<close>

definition AnalysisEngine_calculateStatistics :: "AnalysisResult list \<Rightarrow> AnalysisStatistics" where
  "AnalysisEngine_calculateStatistics results =
     (let predictedResults = filter (\<lambda>r. \<not> isInitial r \<and> rank r \<noteq> None) results
      in if length predictedResults = 0
         then \<lparr>totalTokens = length results, predictedTokens = 0, top1Accuracy = 0,
               top5Accuracy = 0, top10Accuracy = 0, averageRank = 0,
               averageCumulativeProbability = 0, medianRank = 0,
               medianCumulativeProbability = 0\<rparr>
         else
           let ranks = map (\<lambda>r. the (rank r)) predictedResults;
               cumulativeProbs =
                 map (\<lambda>r. the (cumulativeProbability r))
                   (filter (\<lambda>r. cumulativeProbability r \<noteq> None) predictedResults);
               rankStats = calculateStatistics (map real_of_int ranks);
               cumulativeProbStats =
                 (if length cumulativeProbs > 0 then calculateStatistics cumulativeProbs
                  else \<lparr>mean = 0, median = 0, min_value = 0, max_value = 0, std = 0\<rparr>)
           in \<lparr>totalTokens = length results, predictedTokens = length predictedResults,
               top1Accuracy = calculateTopKAccuracy ranks 1,
               top5Accuracy = calculateTopKAccuracy ranks 5,
               top10Accuracy = calculateTopKAccuracy ranks 10,
               averageRank = mean rankStats,
               averageCumulativeProbability = mean cumulativeProbStats,
               medianRank = median rankStats,
               medianCumulativeProbability = median cumulativeProbStats\<rparr>)"

section \<open>Auxiliary notions for the statements\<close>

text \<open>
  The order the specification describes for ranking: higher probability first, and among
  equal probabilities the pair with the lower original index first.
\<close>

definition aheadOf :: "ProbPair \<Rightarrow> ProbPair \<Rightarrow> bool" where
  "aheadOf a b \<longleftrightarrow> prob a > prob b \<or> (prob a = prob b \<and> index a < index b)"

text \<open>The list of results a complete scan records, position by position.\<close>

definition scanResults :: "TokenizerService \<Rightarrow> ModelService \<Rightarrow> int list \<Rightarrow> AnalysisResult list" where
  "scanResults ts ms tokenIds =
     map (\<lambda>j. \<lparr>position = j, token = projr (decodeToken ts (tokenIds ! j)),
                tokenId = tokenIds ! j, rank = None, probability = None,
                cumulativeProbability = None, isInitial = True\<rparr>)
       [0..<min INITIAL_TOKENS_COUNT (length tokenIds)] @
     map (\<lambda>j. predictedResult ms tokenIds j (projr (decodeToken ts (tokenIds ! j))))
       [min INITIAL_TOKENS_COUNT (length tokenIds)..<length tokenIds]"

text \<open>
  Fixtures for the scenarios: a loaded tokenizer whose \<^verbatim>\<open>decode\<close> always succeeds, one
  whose \<^verbatim>\<open>decode\<close> always throws, a predictor that throws on contexts of length four and
  answers the distribution of the specification's scenario otherwise, and an idle engine
  with an empty trace.
\<close>

definition demoTokenizer :: TokenizerService where
  "demoTokenizer =
     \<lparr>tokenizer = Some \<lparr>tk_encode = Some (\<lambda>text. Inr (map (\<lambda>c. int (of_char c)) text)),
                        tk_decode = Some (\<lambda>ids. Inr ''tok''), tk_decodeToken = None\<rparr>\<rparr>"

definition brokenTokenizer :: TokenizerService where
  "brokenTokenizer =
     \<lparr>tokenizer = Some \<lparr>tk_encode = Some (\<lambda>text. Inr []),
                        tk_decode = Some (\<lambda>ids. Inl (Error ''bad id'')), tk_decodeToken = None\<rparr>\<rparr>"

definition demoModel :: ModelService where
  "demoModel =
     \<lparr>runInference = (\<lambda>inputIds. if length inputIds = 4 then Inl (Error ''Inference failed: backend'')
                                 else Inr [0.1, 0.5, 0.3, 0.1])\<rparr>"

definition idleEngine :: AnalysisEngine where
  "idleEngine = \<lparr>isAnalyzing = False, progressCallbacks = []\<rparr>"

definition emptyTrace :: Trace where
  "emptyTrace = \<lparr>inferenceCalls = [], delivered = []\<rparr>"

section \<open>Properties of ranking and accumulation\<close>

lemma length_probabilityPairs [simp]: "length (probabilityPairs d) = length d"
  by (simp add: probabilityPairs_def)

lemma nth_probabilityPairs:
  "i < length d \<Longrightarrow> probabilityPairs d ! i = \<lparr>prob = d ! i, index = int i\<rparr>"
  by (simp add: probabilityPairs_def)

lemma index_probabilityPairs: "map index (probabilityPairs d) = map int [0..<length d]"
  by (rule nth_equalityI) (simp_all add: nth_probabilityPairs)

lemma prob_probabilityPairs: "map prob (probabilityPairs d) = d"
  by (rule nth_equalityI) (simp_all add: nth_probabilityPairs)

lemma index_increasing_probabilityPairs:
  "sorted_wrt (\<lambda>a b. index a < index b) (probabilityPairs d)"
  by (simp add: sorted_wrt_iff_nth_less nth_probabilityPairs)

lemma distinct_index_probabilityPairs: "distinct (map index (probabilityPairs d))"
  by (simp add: index_probabilityPairs distinct_map inj_on_def)

lemma set_sortDescending [simp]: "set (sortDescending ps) = set ps"
  by (simp add: sortDescending_def)

lemma length_sortDescending [simp]: "length (sortDescending ps) = length ps"
  by (simp add: sortDescending_def)

lemma distinct_index_sortDescending:
  "distinct (map index (sortDescending (probabilityPairs d)))"
proof -
  have "distinct (map index (probabilityPairs d))"
    by (rule distinct_index_probabilityPairs)
  then have "distinct (probabilityPairs d) \<and> inj_on index (set (probabilityPairs d))"
    by (simp add: distinct_map)
  then show ?thesis
    by (simp add: distinct_map sortDescending_def)
qed

lemma aheadOf_insort:
  "sorted_wrt aheadOf ys \<Longrightarrow> \<forall>y\<in>set ys. index x < index y \<Longrightarrow>
   sorted_wrt aheadOf (insort_key (\<lambda>a. - prob a) x ys)"
proof (induction ys)
  case Nil
  then show ?case by simp
next
  case (Cons y ys)
  show ?case
  proof (cases "prob y \<le> prob x")
    case True
    have "aheadOf x z" if "z \<in> set (y # ys)" for z
    proof -
      have "prob z \<le> prob y"
        using that Cons.prems(1) by (auto simp: aheadOf_def)
      moreover have "index x < index z"
        using that Cons.prems(2) by auto
      ultimately show ?thesis
        using True by (auto simp: aheadOf_def)
    qed
    with True Cons.prems(1) show ?thesis by simp
  next
    case False
    then have "aheadOf y x" by (simp add: aheadOf_def)
    with False Cons show ?thesis
      by (auto simp: set_insort_key)
  qed
qed

lemma aheadOf_sort_key:
  "sorted_wrt (\<lambda>a b. index a < index b) xs \<Longrightarrow>
   sorted_wrt aheadOf (sort_key (\<lambda>a. - prob a) xs)"
  by (induction xs) (auto intro: aheadOf_insort)

lemma aheadOf_sortDescending:
  "sorted_wrt aheadOf (sortDescending (probabilityPairs d))"
  unfolding sortDescending_def
  by (rule aheadOf_sort_key) (rule index_increasing_probabilityPairs)

lemma aheadOf_irrefl: "\<not> aheadOf a a"
  by (simp add: aheadOf_def)

lemma aheadOf_asym: "aheadOf a b \<Longrightarrow> \<not> aheadOf b a"
  by (auto simp: aheadOf_def)

lemma aheadOf_unique:
  "sorted_wrt aheadOf ps \<Longrightarrow> sorted_wrt aheadOf qs \<Longrightarrow> set ps = set qs \<Longrightarrow> ps = qs"
proof (induction ps arbitrary: qs)
  case Nil
  then show ?case by simp
next
  case (Cons a ps)
  then obtain b qs' where qs: "qs = b # qs'"
    by (cases qs) auto
  have "a \<in> set (b # qs')" using Cons.prems(3) qs by auto
  then have 1: "a = b \<or> aheadOf b a"
    using Cons.prems(2) qs by auto
  have "b \<in> set (a # ps)" using Cons.prems(3) qs by auto
  then have 2: "b = a \<or> aheadOf a b"
    using Cons.prems(1) by auto
  from 1 2 have ab: "a = b"
    using aheadOf_asym by blast
  have "a \<notin> set ps" using Cons.prems(1) aheadOf_irrefl by auto
  moreover have "a \<notin> set qs'" using Cons.prems(2) qs ab aheadOf_irrefl by auto
  ultimately have "set ps = set qs'"
    using Cons.prems(3) qs ab by auto
  moreover have "sorted_wrt aheadOf ps" "sorted_wrt aheadOf qs'"
    using Cons.prems qs by auto
  ultimately have "ps = qs'" by (rule Cons.IH [rotated 2])
  with ab qs show ?case by simp
qed

lemma findIndexFrom_first:
  "k < length xs \<Longrightarrow> P (xs ! k) \<Longrightarrow> \<forall>j<k. \<not> P (xs ! j) \<Longrightarrow>
   findIndexFrom P xs c = c + int k"
proof (induction xs arbitrary: k c)
  case Nil
  then show ?case by simp
next
  case (Cons x xs)
  show ?case
  proof (cases k)
    case 0
    with Cons.prems show ?thesis by simp
  next
    case (Suc k')
    with Cons.prems have "\<not> P x" by auto
    moreover have "findIndexFrom P xs (c + 1) = c + 1 + int k'"
      using Cons.prems Suc by (intro Cons.IH) auto
    ultimately show ?thesis using Suc by simp
  qed
qed

lemma findIndexFrom_none:
  "\<forall>x\<in>set xs. \<not> P x \<Longrightarrow> findIndexFrom P xs c = -1"
  by (induction xs arbitrary: c) auto

lemma findIndexFrom_range:
  "\<exists>x\<in>set xs. P x \<Longrightarrow> c \<le> findIndexFrom P xs c \<and> findIndexFrom P xs c < c + int (length xs)"
proof (induction xs arbitrary: c)
  case Nil
  then show ?case by simp
next
  case (Cons x xs)
  show ?case
  proof (cases "P x")
    case True
    then show ?thesis by simp
  next
    case False
    with Cons.prems have "\<exists>x\<in>set xs. P x" by auto
    from Cons.IH [OF this, of "c + 1"] False show ?thesis by simp
  qed
qed

lemma cumulativeLoop_sum:
  "cumulativeLoop pairs r i c = c + sum_list (map prob (drop i (take (nat r) pairs)))"
proof (induction pairs r i c rule: cumulativeLoop.induct)
  case (1 pairs r i c)
  show ?case
  proof (cases "int i < r \<and> i < length pairs")
    case True
    then have "i < length (take (nat r) pairs)" by auto
    then have "drop i (take (nat r) pairs) =
        take (nat r) pairs ! i # drop (Suc i) (take (nat r) pairs)"
      by (rule Cons_nth_drop_Suc [symmetric])
    moreover have "take (nat r) pairs ! i = pairs ! i"
      using True by auto
    ultimately show ?thesis
      using True "1.IH" by (subst cumulativeLoop.simps) simp
  next
    case False
    then have "drop i (take (nat r) pairs) = []" by auto
    moreover have "cumulativeLoop pairs r i c = c"
      by (subst cumulativeLoop.simps) (use False in auto)
    ultimately show ?thesis by simp
  qed
qed

lemma calculateCumulativeProbability_sum:
  "calculateCumulativeProbability d r =
     sum_list (map prob (take (nat r) (sortDescending (probabilityPairs d))))"
  by (simp add: calculateCumulativeProbability_def cumulativeLoop_sum)

lemma sum_list_take_mono:
  fixes xs :: "real list"
  assumes "\<forall>x\<in>set xs. 0 \<le> x" and "m \<le> n"
  shows "sum_list (take m xs) \<le> sum_list (take n xs)"
proof -
  obtain j where n: "n = m + j" using assms(2) by (auto simp: le_iff_add)
  have "\<forall>x\<in>set (take j (drop m xs)). 0 \<le> x"
    using assms(1) by (meson in_set_dropD in_set_takeD)
  then have "0 \<le> sum_list (take j (drop m xs))"
    by (simp add: sum_list_nonneg)
  then show ?thesis
    by (simp add: n take_add)
qed

lemma sortDescending_unique:
  assumes "set ps = set (probabilityPairs d)" and "sorted_wrt aheadOf ps"
  shows "ps = sortDescending (probabilityPairs d)"
  using assms(2) aheadOf_sortDescending
  by (rule aheadOf_unique) (simp add: assms(1))

lemma in_range_has_pair:
  assumes "0 \<le> t" and "t < int (length d)"
  shows "\<exists>x\<in>set (sortDescending (probabilityPairs d)). index x = t"
proof -
  have "nat t < length (probabilityPairs d)" using assms by simp
  then have "probabilityPairs d ! nat t \<in> set (probabilityPairs d)"
    by (rule nth_mem)
  moreover have "index (probabilityPairs d ! nat t) = t"
    using assms by (simp add: nth_probabilityPairs)
  ultimately show ?thesis by auto
qed

lemma out_of_range_no_pair:
  assumes "t < 0 \<or> int (length d) \<le> t"
  shows "\<forall>x\<in>set (sortDescending (probabilityPairs d)). index x \<noteq> t"
proof
  fix x
  assume "x \<in> set (sortDescending (probabilityPairs d))"
  then have "x \<in> set (probabilityPairs d)" by simp
  then obtain i where "i < length d" "x = probabilityPairs d ! i"
    by (auto simp: in_set_conv_nth)
  then have "index x = int i" by (simp add: nth_probabilityPairs)
  with \<open>i < length d\<close> assms show "index x \<noteq> t" by auto
qed

lemma distinct_map_nth_eq:
  assumes "distinct (map f xs)" and "j < length xs" and "k < length xs"
    and "f (xs ! j) = f (xs ! k)"
  shows "j = k"
proof -
  have "map f xs ! j = map f xs ! k" using assms by simp
  moreover have "j < length (map f xs)" "k < length (map f xs)" using assms by simp_all
  ultimately show ?thesis
    using assms(1) nth_eq_iff_index_eq by blast
qed

lemma example_rank: "calculateTokenRank [0.1, 0.5, 0.3, 0.1] 2 = 1"
  by (simp add: calculateTokenRank_def sortDescending_def probabilityPairs_def findIndex_def upt_rec)

lemma example_cumulative: "calculateCumulativeProbability [0.1, 0.5, 0.3, 0.1] 1 = 0.5"
  by (simp add: calculateCumulativeProbability_def sortDescending_def probabilityPairs_def
      upt_rec cumulativeLoop.simps)

section \<open>Properties of the scan\<close>

lemma inferenceCalls_notifyProgress [simp]:
  "inferenceCalls (notifyProgress eng progress tr) = inferenceCalls tr"
  by (simp add: notifyProgress_def)

lemma decodeToken_loaded:
  "tokenizer ts = Some tk \<Longrightarrow> \<exists>text. decodeToken ts t = Inr text"
  by (cases "decodeTokenTry tk t") (simp_all add: decodeToken_def)

lemma decodeToken_not_loaded:
  "tokenizer ts = None \<Longrightarrow> decodeToken ts t = Inl notLoaded"
  by (simp add: decodeToken_def)

lemma initialLoop_results:
  "tokenizer ts = Some tk \<Longrightarrow>
   fst (initialLoop ts eng tokenIds n i results tr) =
     Inr (results @
       map (\<lambda>j. \<lparr>position = j, token = projr (decodeToken ts (tokenIds ! j)),
                  tokenId = tokenIds ! j, rank = None, probability = None,
                  cumulativeProbability = None, isInitial = True\<rparr>) [i..<n])"
proof (induction ts eng tokenIds n i results tr rule: initialLoop.induct)
  case (1 ts eng tokenIds n i results tr)
  show ?case
  proof (cases "i < n")
    case True
    obtain tok where dec: "decodeToken ts (tokenIds ! i) = Inr tok"
      using decodeToken_loaded [OF "1.prems"] by blast
    have "[i..<n] = i # [i + 1..<n]"
      using True by (simp add: upt_conv_Cons)
    then show ?thesis
      using "1.IH" [OF True dec "1.prems"] True dec
      by (subst initialLoop.simps) simp
  next
    case False
    then show ?thesis
      by (subst initialLoop.simps) simp
  qed
qed

lemma initialLoop_inferenceCalls:
  "inferenceCalls (snd (initialLoop ts eng tokenIds n i results tr)) = inferenceCalls tr"
proof (induction ts eng tokenIds n i results tr rule: initialLoop.induct)
  case (1 ts eng tokenIds n i results tr)
  show ?case
  proof (cases "i < n")
    case True
    show ?thesis
    proof (cases "decodeToken ts (tokenIds ! i)")
      case (Inl e)
      with True show ?thesis by (subst initialLoop.simps) simp
    next
      case (Inr tok)
      with True "1.IH" [OF True Inr] show ?thesis
        by (subst initialLoop.simps) simp
    qed
  next
    case False
    then show ?thesis
      by (subst initialLoop.simps) simp
  qed
qed

lemma initialLoop_not_loaded:
  "tokenizer ts = None \<Longrightarrow> i < n \<Longrightarrow>
   fst (initialLoop ts eng tokenIds n i results tr) = Inl notLoaded"
  by (subst initialLoop.simps) (simp add: decodeToken_not_loaded)

lemma predictionLoop_results:
  "tokenizer ts = Some tk \<Longrightarrow>
   fst (predictionLoop ts ms eng tokenIds i results tr) =
     Inr (results @
       map (\<lambda>j. predictedResult ms tokenIds j (projr (decodeToken ts (tokenIds ! j))))
         [i..<length tokenIds])"
proof (induction ts ms eng tokenIds i results tr rule: predictionLoop.induct)
  case (1 ts ms eng tokenIds i results tr)
  show ?case
  proof (cases "i < length tokenIds")
    case True
    obtain tok where dec: "decodeToken ts (tokenIds ! i) = Inr tok"
      using decodeToken_loaded [OF "1.prems"] by blast
    have "[i..<length tokenIds] = i # [i + 1..<length tokenIds]"
      using True by (simp add: upt_conv_Cons)
    then show ?thesis
      using "1.IH" [OF True dec "1.prems"] True dec
      by (subst predictionLoop.simps) simp
  next
    case False
    then show ?thesis
      by (subst predictionLoop.simps) simp
  qed
qed

lemma predictionLoop_inferenceCalls:
  "tokenizer ts = Some tk \<Longrightarrow>
   inferenceCalls (snd (predictionLoop ts ms eng tokenIds i results tr)) =
     inferenceCalls tr @ map (\<lambda>j. take j tokenIds) [i..<length tokenIds]"
proof (induction ts ms eng tokenIds i results tr rule: predictionLoop.induct)
  case (1 ts ms eng tokenIds i results tr)
  show ?case
  proof (cases "i < length tokenIds")
    case True
    obtain tok where dec: "decodeToken ts (tokenIds ! i) = Inr tok"
      using decodeToken_loaded [OF "1.prems"] by blast
    have "[i..<length tokenIds] = i # [i + 1..<length tokenIds]"
      using True by (simp add: upt_conv_Cons)
    then show ?thesis
      using "1.IH" [OF True dec "1.prems"] True dec
      by (subst predictionLoop.simps) simp
  next
    case False
    then show ?thesis
      by (subst predictionLoop.simps) simp
  qed
qed

lemma predictionLoop_not_loaded:
  "tokenizer ts = None \<Longrightarrow>
   inferenceCalls (snd (predictionLoop ts ms eng tokenIds i results tr)) = inferenceCalls tr"
  by (subst predictionLoop.simps) (simp add: decodeToken_not_loaded)

lemma analyzeTokenSequence_loaded:
  assumes "tokenizer ts = Some tk"
  shows "fst (analyzeTokenSequence ts ms eng tokenIds tr) = Inr (scanResults ts ms tokenIds)"
    and "inferenceCalls (snd (analyzeTokenSequence ts ms eng tokenIds tr)) =
           inferenceCalls tr @
           map (\<lambda>j. take j tokenIds) [min INITIAL_TOKENS_COUNT (length tokenIds)..<length tokenIds]"
proof -
  let ?n = "min INITIAL_TOKENS_COUNT (length tokenIds)"
  obtain r tr1 where il: "initialLoop ts eng tokenIds ?n 0 [] tr = (r, tr1)"
    by (cases "initialLoop ts eng tokenIds ?n 0 [] tr")
  have r: "r = Inr (map (\<lambda>j. \<lparr>position = j, token = projr (decodeToken ts (tokenIds ! j)),
                tokenId = tokenIds ! j, rank = None, probability = None,
                cumulativeProbability = None, isInitial = True\<rparr>) [0..<?n])"
    using initialLoop_results [OF assms, of eng tokenIds ?n 0 "[]" tr] il by simp
  have tr1: "inferenceCalls tr1 = inferenceCalls tr"
    using initialLoop_inferenceCalls [of ts eng tokenIds ?n 0 "[]" tr] il by simp
  show "fst (analyzeTokenSequence ts ms eng tokenIds tr) = Inr (scanResults ts ms tokenIds)"
    by (simp add: analyzeTokenSequence_def Let_def il r scanResults_def
        predictionLoop_results [OF assms])
  show "inferenceCalls (snd (analyzeTokenSequence ts ms eng tokenIds tr)) =
           inferenceCalls tr @ map (\<lambda>j. take j tokenIds) [?n..<length tokenIds]"
    by (simp add: analyzeTokenSequence_def Let_def il r tr1
        predictionLoop_inferenceCalls [OF assms])
qed

lemma analyzeTokenSequence_not_loaded:
  assumes "tokenizer ts = None" and "tokenIds \<noteq> []"
  shows "fst (analyzeTokenSequence ts ms eng tokenIds tr) = Inl notLoaded"
proof -
  let ?n = "min INITIAL_TOKENS_COUNT (length tokenIds)"
  have "0 < ?n" using assms(2) by (simp add: INITIAL_TOKENS_COUNT_def)
  then have "fst (initialLoop ts eng tokenIds ?n 0 [] tr) = Inl notLoaded"
    using assms(1) by (rule initialLoop_not_loaded [rotated])
  then show ?thesis
    by (auto simp: analyzeTokenSequence_def Let_def split: prod.splits sum.splits)
qed

lemma length_scanResults [simp]: "length (scanResults ts ms tokenIds) = length tokenIds"
  by (simp add: scanResults_def)

lemma nth_scanResults_initial:
  "i < min INITIAL_TOKENS_COUNT (length tokenIds) \<Longrightarrow>
   scanResults ts ms tokenIds ! i =
     \<lparr>position = i, token = projr (decodeToken ts (tokenIds ! i)),
      tokenId = tokenIds ! i, rank = None, probability = None,
      cumulativeProbability = None, isInitial = True\<rparr>"
  by (simp add: scanResults_def nth_append)

lemma nth_scanResults_predicted:
  "min INITIAL_TOKENS_COUNT (length tokenIds) \<le> i \<Longrightarrow> i < length tokenIds \<Longrightarrow>
   scanResults ts ms tokenIds ! i =
     predictedResult ms tokenIds i (projr (decodeToken ts (tokenIds ! i)))"
  by (simp add: scanResults_def nth_append)

lemma isInitial_predictedResult [simp]: "\<not> isInitial (predictedResult ms tokenIds i tok)"
  by (simp add: predictedResult_def Let_def split: sum.splits)

lemma predictedResult_failure:
  "runInference ms (take i tokenIds) = Inl e \<Longrightarrow>
   predictedResult ms tokenIds i tok =
     \<lparr>position = i, token = tok, tokenId = tokenIds ! i, rank = None,
      probability = None, cumulativeProbability = None, isInitial = False\<rparr>"
  by (simp add: predictedResult_def)

lemma predictedResult_cong:
  "runInference ms' (take i tokenIds) = runInference ms (take i tokenIds) \<Longrightarrow>
   predictedResult ms' tokenIds i tok = predictedResult ms tokenIds i tok"
  by (simp add: predictedResult_def)

lemma take_scanResults_cong:
  assumes "\<forall>j<i. runInference ms' (take j tokenIds) = runInference ms (take j tokenIds)"
  shows "take i (scanResults ts ms' tokenIds) = take i (scanResults ts ms tokenIds)"
proof (rule nth_equalityI)
  show "length (take i (scanResults ts ms' tokenIds)) = length (take i (scanResults ts ms tokenIds))"
    by simp
next
  fix j
  assume "j < length (take i (scanResults ts ms' tokenIds))"
  then have j: "j < i" "j < length tokenIds" by simp_all
  show "take i (scanResults ts ms' tokenIds) ! j = take i (scanResults ts ms tokenIds) ! j"
  proof (cases "j < min INITIAL_TOKENS_COUNT (length tokenIds)")
    case True
    then show ?thesis using j by (simp add: nth_scanResults_initial)
  next
    case False
    then have "min INITIAL_TOKENS_COUNT (length tokenIds) \<le> j" by linarith
    moreover have "runInference ms' (take j tokenIds) = runInference ms (take j tokenIds)"
      using assms j by blast
    ultimately show ?thesis
      using j predictedResult_cong [of ms' j tokenIds ms]
      by (simp add: nth_scanResults_predicted)
  qed
qed

lemma analyzeTokenSequence_returns:
  assumes "tokenizer ts = Some tk"
  shows "\<exists>tr'. analyzeTokenSequence ts ms eng tokenIds tr = (Inr (scanResults ts ms tokenIds), tr') \<and>
           inferenceCalls tr' = inferenceCalls tr @
             map (\<lambda>j. take j tokenIds) [min INITIAL_TOKENS_COUNT (length tokenIds)..<length tokenIds]"
  using analyzeTokenSequence_loaded [OF assms, of ms eng tokenIds tr]
  by (cases "analyzeTokenSequence ts ms eng tokenIds tr") simp

lemma analyzeTokenSequence_Inr_scanResults:
  assumes "analyzeTokenSequence ts ms eng tokenIds tr = (Inr rs, tr')" and "tokenIds \<noteq> []"
  shows "rs = scanResults ts ms tokenIds"
proof (cases "tokenizer ts")
  case None
  then have "fst (analyzeTokenSequence ts ms eng tokenIds tr) = Inl notLoaded"
    using assms(2) by (rule analyzeTokenSequence_not_loaded)
  with assms(1) show ?thesis by simp
next
  case (Some tk)
  then have "fst (analyzeTokenSequence ts ms eng tokenIds tr) = Inr (scanResults ts ms tokenIds)"
    by (rule analyzeTokenSequence_loaded)
  with assms(1) show ?thesis by simp
qed

lemma analyzeTokenSequence_no_tokenizer_no_calls:
  assumes "tokenizer ts = None"
  shows "inferenceCalls (snd (analyzeTokenSequence ts ms eng tokenIds tr)) = inferenceCalls tr"
proof -
  let ?n = "min INITIAL_TOKENS_COUNT (length tokenIds)"
  obtain r tr1 where il: "initialLoop ts eng tokenIds ?n 0 [] tr = (r, tr1)"
    by (cases "initialLoop ts eng tokenIds ?n 0 [] tr")
  have tr1: "inferenceCalls tr1 = inferenceCalls tr"
    using initialLoop_inferenceCalls [of ts eng tokenIds ?n 0 "[]" tr] il by simp
  show ?thesis
  proof (cases r)
    case (Inl e)
    with il tr1 show ?thesis by (simp add: analyzeTokenSequence_def Let_def)
  next
    case (Inr results)
    with il tr1 show ?thesis
      by (simp add: analyzeTokenSequence_def Let_def predictionLoop_not_loaded [OF assms])
  qed
qed

section \<open>Claims about ranking and accumulation\<close>

text \<open>
  Claim C2.  For a target id inside the distribution, \<open>calculateTokenRank\<close> returns the
  zero-based position of the target in the list of (probability, index) pairs ordered by
  descending probability, ties in original index order: whatever list \<open>ps\<close> arranges the
  pairs of \<open>d\<close> in that order, the pair of the target sits at exactly one position of
  \<open>ps\<close>, and that position is the returned rank.  For the distribution
  \<open>[0.1, 0.5, 0.3, 0.1]\<close> and target \<open>2\<close> the rank is \<open>1\<close>, and the cumulative
  probability at rank \<open>1\<close> is \<open>0.5\<close>.
\<close>

theorem calculateTokenRank_is_sorted_position:
  assumes "0 \<le> t" and "t < int (length d)"
    and "set ps = set (probabilityPairs d)" and "sorted_wrt aheadOf ps"
  shows "(\<exists>k<length ps. index (ps ! k) = t \<and> calculateTokenRank d t = int k \<and>
            (\<forall>j<length ps. index (ps ! j) = t \<longrightarrow> j = k)) \<and>
         calculateTokenRank [0.1, 0.5, 0.3, 0.1] 2 = 1 \<and>
         calculateCumulativeProbability [0.1, 0.5, 0.3, 0.1] 1 = 0.5"
proof -
  let ?S = "sortDescending (probabilityPairs d)"
  have ps: "ps = ?S"
    using assms(3,4) by (rule sortDescending_unique)
  obtain x where x: "x \<in> set ?S" "index x = t"
    using in_range_has_pair [OF assms(1,2)] by blast
  obtain k where k: "k < length ?S" "index (?S ! k) = t"
    using x by (metis in_set_conv_nth)
  have dist: "distinct (map index ?S)"
    by (rule distinct_index_sortDescending)
  have uniq: "j = k" if "j < length ?S" "index (?S ! j) = t" for j
    using dist that(1) k(1) by (rule distinct_map_nth_eq) (simp add: that(2) k(2))
  have "\<forall>j<k. index (?S ! j) \<noteq> t"
  proof (intro allI impI notI)
    fix j
    assume jk: "j < k" and jt: "index (?S ! j) = t"
    from jk k(1) have "j < length ?S" by (rule less_trans)
    then have "j = k" using jt by (rule uniq)
    with jk show False by simp
  qed
  then have "findIndexFrom (\<lambda>pair. index pair = t) ?S 0 = 0 + int k"
    using k by (intro findIndexFrom_first) auto
  then have "calculateTokenRank d t = int k"
    by (simp add: calculateTokenRank_def findIndex_def Let_def)
  with k uniq ps have "\<exists>k<length ps. index (ps ! k) = t \<and> calculateTokenRank d t = int k \<and>
            (\<forall>j<length ps. index (ps ! j) = t \<longrightarrow> j = k)"
    by blast
  then show ?thesis
    using example_rank example_cumulative by simp
qed

text \<open>The scenario of the specification as an instance: the ordered list is written out.\<close>

theorem calculateTokenRank_is_sorted_position_witness:
  "(0::int) \<le> 2 \<and> (2::int) < int (length [0.1, 0.5, 0.3, 0.1 :: real]) \<and>
   set [\<lparr>prob = 0.5, index = 1\<rparr>, \<lparr>prob = 0.3, index = 2\<rparr>,
        \<lparr>prob = 0.1, index = 0\<rparr>, \<lparr>prob = 0.1, index = 3\<rparr>] =
     set (probabilityPairs [0.1, 0.5, 0.3, 0.1]) \<and>
   sorted_wrt aheadOf [\<lparr>prob = 0.5, index = 1\<rparr>, \<lparr>prob = 0.3, index = 2\<rparr>,
        \<lparr>prob = 0.1, index = 0\<rparr>, \<lparr>prob = 0.1, index = 3\<rparr>] \<and>
   calculateTokenRank [0.1, 0.5, 0.3, 0.1] 2 = 1"
proof -
  let ?ps = "[\<lparr>prob = 0.5, index = 1\<rparr>, \<lparr>prob = 0.3, index = 2\<rparr>,
        \<lparr>prob = 0.1, index = 0\<rparr>, \<lparr>prob = 0.1, index = (3::int)\<rparr>]"
  have h1: "(0::int) \<le> 2" by simp
  have h2: "(2::int) < int (length [0.1, 0.5, 0.3, 0.1 :: real])" by simp
  have h3: "set ?ps = set (probabilityPairs [0.1, 0.5, 0.3, 0.1])"
    by (auto simp: probabilityPairs_def upt_rec)
  have h4: "sorted_wrt aheadOf ?ps"
    by (simp add: aheadOf_def)
  from calculateTokenRank_is_sorted_position [OF h1 h2 h3 h4] h1 h2 h3 h4
  show ?thesis by blast
qed

text \<open>
  Claim C3, as amended.  The claim says that a target id outside \<open>[0, len d)\<close> makes
  \<open>calculateTokenRank\<close> fail.  The function has no failing path: \<^verbatim>\<open>findIndex\<close> yields
  \<open>-1\<close> and the function returns the length of the distribution, which is not a valid
  rank but an ordinary number.
\<close>

theorem calculateTokenRank_out_of_range:
  assumes "t < 0 \<or> int (length d) \<le> t"
  shows "calculateTokenRank d t = int (length d)"
proof -
  have "findIndexFrom (\<lambda>pair. index pair = t) (sortDescending (probabilityPairs d)) 0 = -1"
    using out_of_range_no_pair [OF assms] by (intro findIndexFrom_none) simp
  then show ?thesis
    by (simp add: calculateTokenRank_def findIndex_def Let_def)
qed

text \<open>An instance with the target \<open>7\<close> on a distribution of length two.\<close>

theorem calculateTokenRank_out_of_range_witness:
  "((7::int) < 0 \<or> int (length [1 / 2, 1 / 2 :: real]) \<le> 7) \<and>
   calculateTokenRank [1 / 2, 1 / 2] 7 = int (length [1 / 2, 1 / 2 :: real])"
proof -
  have h: "(7::int) < 0 \<or> int (length [1 / 2, 1 / 2 :: real]) \<le> 7" by simp
  from calculateTokenRank_out_of_range [OF h] h show ?thesis by blast
qed

text \<open>The same input refutes the claim as stated: a number is returned, nothing is thrown.\<close>

theorem calculateTokenRank_out_of_range_counterexample:
  "calculateTokenRank [1 / 2, 1 / 2] 7 = 2"
  by (simp add: calculateTokenRank_def sortDescending_def probabilityPairs_def findIndex_def upt_rec)

text \<open>
  Claim C8.  For a distribution of non-negative numbers the cumulative probability at
  rank \<open>0\<close> is \<open>0\<close>, and it does not decrease when the rank grows.
\<close>

theorem calculateCumulativeProbability_monotone:
  assumes "\<forall>p\<in>set d. 0 \<le> p" and "r1 \<le> r2"
  shows "calculateCumulativeProbability d 0 = 0 \<and>
         calculateCumulativeProbability d r1 \<le> calculateCumulativeProbability d r2"
proof -
  let ?xs = "map prob (sortDescending (probabilityPairs d))"
  have "set ?xs = set (map prob (probabilityPairs d))" by simp
  then have "set ?xs = set d" by (simp only: prob_probabilityPairs)
  then have nonneg: "\<forall>x\<in>set ?xs. 0 \<le> x" using assms(1) by simp
  have "nat r1 \<le> nat r2" using assms(2) by simp
  with nonneg have "sum_list (take (nat r1) ?xs) \<le> sum_list (take (nat r2) ?xs)"
    by (rule sum_list_take_mono)
  then show ?thesis
    by (simp add: calculateCumulativeProbability_sum take_map)
qed

text \<open>An instance on the distribution of the scenario, ranks one and two.\<close>

theorem calculateCumulativeProbability_monotone_witness:
  "list_all (\<lambda>p. 0 \<le> p) [0.1, 0.5, 0.3, 0.1 :: real] \<and> (1::int) \<le> 2 \<and>
   calculateCumulativeProbability [0.1, 0.5, 0.3, 0.1] 0 = 0 \<and>
   calculateCumulativeProbability [0.1, 0.5, 0.3, 0.1] 1
     \<le> calculateCumulativeProbability [0.1, 0.5, 0.3, 0.1] 2"
proof -
  have h1: "\<forall>p\<in>set [0.1, 0.5, 0.3, 0.1 :: real]. 0 \<le> p" by simp
  have h2: "(1::int) \<le> 2" by simp
  from calculateCumulativeProbability_monotone [OF h1 h2] h2 show ?thesis by simp
qed

text \<open>
  Claim C10.  For a target id inside the distribution the returned rank lies in
  \<open>[0, len d)\<close>, and \<^verbatim>\<open>findIndex\<close> does not yield \<open>-1\<close>, so the fallback branch is
  not taken.
\<close>

theorem calculateTokenRank_in_range:
  assumes "0 \<le> t" and "t < int (length d)"
  shows "0 \<le> calculateTokenRank d t \<and> calculateTokenRank d t < int (length d) \<and>
         findIndex (\<lambda>pair. index pair = t) (sortDescending (probabilityPairs d)) \<noteq> -1"
proof -
  let ?S = "sortDescending (probabilityPairs d)"
  let ?r = "findIndexFrom (\<lambda>pair. index pair = t) ?S 0"
  have "\<exists>x\<in>set ?S. index x = t"
    using assms by (rule in_range_has_pair)
  then have "0 \<le> ?r \<and> ?r < 0 + int (length ?S)"
    by (rule findIndexFrom_range)
  then have r: "0 \<le> ?r" "?r < int (length d)" by simp_all
  then have "?r \<noteq> -1" by simp
  with r show ?thesis
    by (simp add: calculateTokenRank_def findIndex_def Let_def)
qed

text \<open>An instance: target \<open>3\<close> in a distribution of length four.\<close>

theorem calculateTokenRank_in_range_witness:
  "(0::int) \<le> 3 \<and> (3::int) < int (length [0.1, 0.5, 0.3, 0.1 :: real]) \<and>
   0 \<le> calculateTokenRank [0.1, 0.5, 0.3, 0.1] 3 \<and>
   calculateTokenRank [0.1, 0.5, 0.3, 0.1] 3 < 4"
proof -
  have h1: "(0::int) \<le> 3" by simp
  have h2: "(3::int) < int (length [0.1, 0.5, 0.3, 0.1 :: real])" by simp
  from calculateTokenRank_in_range [OF h1 h2] h1 h2 show ?thesis by simp
qed

section \<open>Claims about the tokenizer service and the engine\<close>

text \<open>
  Claim C9, as amended.  The claim says that \<open>decodeToken\<close> never fails.  Once a tokenizer
  is loaded this is so: the call returns a string for every token id, the decoded text when
  decoding succeeds and the placeholder \<^verbatim>\<open><id>\<close> when it throws.  Before a tokenizer is
  loaded the guard at the top of the method throws.
\<close>

theorem decodeToken_loaded_never_fails:
  assumes "tokenizer ts = Some tk"
  shows "(\<exists>text. decodeToken ts t = Inr text) \<and>
         (\<forall>text. decodeTokenTry tk t = Inr text \<longrightarrow> decodeToken ts t = Inr text) \<and>
         (\<forall>e. decodeTokenTry tk t = Inl e \<longrightarrow> decodeToken ts t = Inr (''<'' @ showInt t @ ''>''))"
  using assms by (cases "decodeTokenTry tk t") (simp_all add: decodeToken_def)

text \<open>An instance: a tokenizer whose \<^verbatim>\<open>decode\<close> throws, token id \<open>42\<close>.\<close>

theorem decodeToken_loaded_never_fails_witness:
  "decodeToken brokenTokenizer 42 = Inr ''<42>''"
proof -
  have h: "tokenizer brokenTokenizer =
      Some \<lparr>tk_encode = Some (\<lambda>text. Inr []),
            tk_decode = Some (\<lambda>ids. Inl (Error ''bad id'')), tk_decodeToken = None\<rparr>"
    by (simp add: brokenTokenizer_def)
  have "showInt 42 = ''42''"
    by (simp add: showInt_def showNat.simps)
  with decodeToken_loaded_never_fails [OF h, of 42] show ?thesis
    by (simp add: decodeTokenTry_def)
qed

text \<open>Without a tokenizer the call throws, which refutes the claim as stated.\<close>

theorem decodeToken_not_loaded_counterexample:
  "decodeToken \<lparr>tokenizer = None\<rparr> 5 =
     Inl (Error ''Tokenizer not loaded. Call loadTokenizer() first.'')"
  by (simp add: decodeToken_def notLoaded_def)

text \<open>
  Claim C4, as amended.  The claim says that with an empty predicted set every numeric
  field of the statistics is \<open>0\<close>.  The early return sets \<open>totalTokens\<close> to the number
  of results and every other field to \<open>0\<close>; for the empty list this is all zeros.
\<close>

theorem calculateStatistics_empty_predicted_set:
  assumes "filter (\<lambda>r. \<not> isInitial r \<and> rank r \<noteq> None) results = []"
  shows "AnalysisEngine_calculateStatistics results =
           \<lparr>totalTokens = length results, predictedTokens = 0, top1Accuracy = 0,
            top5Accuracy = 0, top10Accuracy = 0, averageRank = 0,
            averageCumulativeProbability = 0, medianRank = 0,
            medianCumulativeProbability = 0\<rparr>"
  using assms by (simp add: AnalysisEngine_calculateStatistics_def)

text \<open>An instance: the empty result list, where every field is \<open>0\<close>.\<close>

theorem calculateStatistics_empty_predicted_set_witness:
  "AnalysisEngine_calculateStatistics [] =
     \<lparr>totalTokens = 0, predictedTokens = 0, top1Accuracy = 0,
      top5Accuracy = 0, top10Accuracy = 0, averageRank = 0,
      averageCumulativeProbability = 0, medianRank = 0,
      medianCumulativeProbability = 0\<rparr>"
  using calculateStatistics_empty_predicted_set [of "[]"] by simp

text \<open>
  A list of one initial result has an empty predicted set and \<open>totalTokens = 1\<close>, which
  refutes the claim as stated.
\<close>

theorem calculateStatistics_all_initial_counterexample:
  "filter (\<lambda>r. \<not> isInitial r \<and> rank r \<noteq> None)
     [\<lparr>position = 0, token = ''tok'', tokenId = 1, rank = None, probability = None,
       cumulativeProbability = None, isInitial = True\<rparr>] = [] \<and>
   totalTokens (AnalysisEngine_calculateStatistics
     [\<lparr>position = 0, token = ''tok'', tokenId = 1, rank = None, probability = None,
       cumulativeProbability = None, isInitial = True\<rparr>]) = 1"
  by (simp add: AnalysisEngine_calculateStatistics_def)

text \<open>
  Claim C7.  While the flag \<open>isAnalyzing\<close> is set, a call of \<open>analyzeText\<close> fails at once
  with the error \<open>Analysis already in progress\<close> and leaves the engine and the trace as
  they were, so the call in flight continues from the state it had.
\<close>

theorem analyzeText_rejects_reentrant_call:
  assumes "isAnalyzing eng"
  shows "analyzeText ts ms text config onProgress (eng, tr) =
           (Inl (Error ''Analysis already in progress''), eng, tr)"
  using assms by (simp add: analyzeText_def)

text \<open>
  An instance: the engine is in the state a first call with callback \<open>1\<close> has entered,
  and a second call arrives.
\<close>

theorem analyzeText_rejects_reentrant_call_witness:
  "isAnalyzing (analyzeTextEnter idleEngine (Some 1)) \<and>
   analyzeText demoTokenizer demoModel ''second'' None (Some 2)
       (analyzeTextEnter idleEngine (Some 1), emptyTrace) =
     (Inl (Error ''Analysis already in progress''),
      \<lparr>isAnalyzing = True, progressCallbacks = [1]\<rparr>, emptyTrace)"
proof -
  have h: "isAnalyzing (analyzeTextEnter idleEngine (Some 1))"
    by (simp add: analyzeTextEnter_def)
  have "analyzeTextEnter idleEngine (Some 1) = \<lparr>isAnalyzing = True, progressCallbacks = [1]\<rparr>"
    by (simp add: analyzeTextEnter_def idleEngine_def)
  with analyzeText_rejects_reentrant_call [OF h, of demoTokenizer demoModel "''second''" None "Some 2" emptyTrace] h
  show ?thesis by simp
qed

text \<open>
  Claim C6.  When the preprocessed text is empty, or the tokenizer returns no token for
  it, an admitted call of \<open>analyzeText\<close> fails with the corresponding error, the predictor
  is not called, and no progress for a token is delivered: at most the event
  \<open>Tokenizing...\<close> is.
\<close>

theorem analyzeText_empty_input:
  assumes "\<not> isAnalyzing eng"
    and "preprocessText text = [] \<or> encode ts (preprocessText text) = Inr []"
  shows "\<exists>eng' tr'. analyzeText ts ms text config onProgress (eng, tr) =
           (Inl (Error (''Analysis failed: '' @
              (if preprocessText text = [] then ''Text is empty after preprocessing''
               else ''No tokens generated from text''))), eng', tr') \<and>
         \<not> isAnalyzing eng' \<and>
         inferenceCalls tr' = inferenceCalls tr \<and>
         delivered tr' = delivered tr @
           (if preprocessText text = [] then []
            else map (\<lambda>callback. (callback,
                   \<lparr>current = 0, total = 100, percentage = 5, currentToken = ''Tokenizing...''\<rparr>))
                 (progressCallbacks (analyzeTextEnter eng onProgress)))"
proof (cases "preprocessText text = []")
  case True
  with assms(1) show ?thesis
    by (simp add: analyzeText_def analyzeTextBody_def Let_def)
next
  case False
  with assms(2) have "encode ts (preprocessText text) = Inr []" by simp
  with False assms(1) show ?thesis
    by (simp add: analyzeText_def analyzeTextBody_def Let_def notifyProgress_def)
qed

text \<open>An instance: a tokenizer that returns no token for the text \<open>abc\<close>.\<close>

theorem analyzeText_empty_input_witness:
  "\<not> isAnalyzing idleEngine \<and>
   encode brokenTokenizer (preprocessText ''abc'') = Inr [] \<and>
   fst (analyzeText brokenTokenizer demoModel ''abc'' None None (idleEngine, emptyTrace)) =
     Inl (Error ''Analysis failed: No tokens generated from text'') \<and>
   inferenceCalls (snd (snd (analyzeText brokenTokenizer demoModel ''abc'' None None
     (idleEngine, emptyTrace)))) = []"
proof -
  have h1: "\<not> isAnalyzing idleEngine" by (simp add: idleEngine_def)
  have p: "preprocessText ''abc'' = ''abc''"
    by (simp add: preprocessText_def trim_def isTrimmed_def TAB_def LF_def CR_def SP_def)
  have e: "encode brokenTokenizer (preprocessText ''abc'') = Inr []"
    by (simp add: encode_def brokenTokenizer_def)
  then have h2: "preprocessText ''abc'' = [] \<or> encode brokenTokenizer (preprocessText ''abc'') = Inr []"
    by simp
  from analyzeText_empty_input [OF h1 h2, of demoModel None None emptyTrace] h1 e p
  show ?thesis by (auto simp: emptyTrace_def)
qed

text \<open>
  Claim C5.  For a non-empty token sequence, a scan with a loaded tokenizer returns a
  list, and every returned list has one result per token: the first \<open>min 3 n\<close> are initial
  with no rank, probability or cumulative probability, and the others are not initial.
\<close>

theorem analyzeTokenSequence_prefix:
  assumes "tokenIds \<noteq> []"
  shows "(tokenizer ts \<noteq> None \<longrightarrow>
            (\<exists>rs tr'. analyzeTokenSequence ts ms eng tokenIds tr = (Inr rs, tr'))) \<and>
         (\<forall>rs tr'. analyzeTokenSequence ts ms eng tokenIds tr = (Inr rs, tr') \<longrightarrow>
            length rs = length tokenIds \<and>
            (\<forall>i<min 3 (length tokenIds).
               isInitial (rs ! i) \<and> rank (rs ! i) = None \<and> probability (rs ! i) = None \<and>
               cumulativeProbability (rs ! i) = None) \<and>
            (\<forall>i. min 3 (length tokenIds) \<le> i \<and> i < length tokenIds \<longrightarrow> \<not> isInitial (rs ! i)))"
proof (intro conjI impI allI)
  assume "tokenizer ts \<noteq> None"
  then obtain tk where "tokenizer ts = Some tk" by auto
  from analyzeTokenSequence_returns [OF this, of ms eng tokenIds tr]
  show "\<exists>rs tr'. analyzeTokenSequence ts ms eng tokenIds tr = (Inr rs, tr')" by blast
next
  fix rs tr'
  assume "analyzeTokenSequence ts ms eng tokenIds tr = (Inr rs, tr')"
  then have rs: "rs = scanResults ts ms tokenIds"
    using assms by (rule analyzeTokenSequence_Inr_scanResults)
  show "length rs = length tokenIds" by (simp add: rs)
  {
    fix i
    assume "i < min 3 (length tokenIds)"
    then have "i < min INITIAL_TOKENS_COUNT (length tokenIds)"
      by (simp add: INITIAL_TOKENS_COUNT_def)
    then have "rs ! i =
       \<lparr>position = i, token = projr (decodeToken ts (tokenIds ! i)),
        tokenId = tokenIds ! i, rank = None, probability = None,
        cumulativeProbability = None, isInitial = True\<rparr>"
      unfolding rs by (rule nth_scanResults_initial)
    then show "isInitial (rs ! i)" "rank (rs ! i) = None" "probability (rs ! i) = None"
      "cumulativeProbability (rs ! i) = None" by simp_all
  }
  {
    fix i
    assume "min 3 (length tokenIds) \<le> i \<and> i < length tokenIds"
    then have "min INITIAL_TOKENS_COUNT (length tokenIds) \<le> i" "i < length tokenIds"
      by (simp_all add: INITIAL_TOKENS_COUNT_def)
    then have "rs ! i = predictedResult ms tokenIds i (projr (decodeToken ts (tokenIds ! i)))"
      unfolding rs by (rule nth_scanResults_predicted)
    then show "\<not> isInitial (rs ! i)" by simp
  }
qed

text \<open>An instance: the scenario of five tokens, positions 0 to 2 initial, 3 and 4 predicted.\<close>

theorem analyzeTokenSequence_prefix_witness:
  "[1, 2, 3, 2, 1] \<noteq> ([] :: int list) \<and> tokenizer demoTokenizer \<noteq> None \<and>
   (\<exists>rs tr'. analyzeTokenSequence demoTokenizer demoModel idleEngine [1, 2, 3, 2, 1] emptyTrace
        = (Inr rs, tr') \<and>
      length rs = 5 \<and>
      isInitial (rs ! 0) \<and> isInitial (rs ! 1) \<and> isInitial (rs ! 2) \<and>
      rank (rs ! 2) = None \<and> probability (rs ! 2) = None \<and>
      cumulativeProbability (rs ! 2) = None \<and>
      \<not> isInitial (rs ! 3) \<and> \<not> isInitial (rs ! 4))"
proof -
  have h1: "[1, 2, 3, 2, 1] \<noteq> ([] :: int list)" by simp
  have h2: "tokenizer demoTokenizer \<noteq> None" by (simp add: demoTokenizer_def)
  note inst = analyzeTokenSequence_prefix [OF h1, of demoTokenizer demoModel idleEngine emptyTrace]
  from inst h2 obtain rs tr' where
    run: "analyzeTokenSequence demoTokenizer demoModel idleEngine [1, 2, 3, 2, 1] emptyTrace
            = (Inr rs, tr')"
    by blast
  with inst have shape: "length rs = length [1, 2, 3, 2, 1 :: int] \<and>
      (\<forall>i<min 3 (length [1, 2, 3, 2, 1 :: int]).
         isInitial (rs ! i) \<and> rank (rs ! i) = None \<and> probability (rs ! i) = None \<and>
         cumulativeProbability (rs ! i) = None) \<and>
      (\<forall>i. min 3 (length [1, 2, 3, 2, 1 :: int]) \<le> i \<and> i < length [1, 2, 3, 2, 1 :: int]
         \<longrightarrow> \<not> isInitial (rs ! i))"
    by blast
  then have "length rs = 5" "isInitial (rs ! 0)" "isInitial (rs ! 1)" "isInitial (rs ! 2)"
    "rank (rs ! 2) = None" "probability (rs ! 2) = None" "cumulativeProbability (rs ! 2) = None"
    "\<not> isInitial (rs ! 3)" "\<not> isInitial (rs ! 4)"
    by simp_all
  with h1 h2 run show ?thesis by blast
qed

text \<open>
  Claim C1.  Let \<open>i\<close> be a position at or after the prefix for which the predictor is
  called during the scan and throws.  Then the scan returns one result per token; the
  result at \<open>i\<close> is not initial and has no rank, probability or cumulative probability;
  the results before \<open>i\<close> are those of any scan whose predictor answers the earlier
  contexts alike, whatever it does at \<open>i\<close>; and the predictor is called for every
  position from the prefix to the end, so the scan goes on after \<open>i\<close>.  The predictor is
  called for a position only after \<open>decodeToken\<close> has returned for it, so a scan in which it
  is called has a loaded tokenizer.
\<close>

theorem analyzeTokenSequence_inference_failure:
  assumes "min 3 (length tokenIds) \<le> i" and "i < length tokenIds"
    and "take i tokenIds \<in>
           set (inferenceCalls (snd (analyzeTokenSequence ts ms eng tokenIds emptyTrace)))"
    and "runInference ms (take i tokenIds) = Inl e"
  shows "\<exists>rs tr'. analyzeTokenSequence ts ms eng tokenIds emptyTrace = (Inr rs, tr') \<and>
           length rs = length tokenIds \<and>
           position (rs ! i) = i \<and> tokenId (rs ! i) = tokenIds ! i \<and>
           \<not> isInitial (rs ! i) \<and> rank (rs ! i) = None \<and> probability (rs ! i) = None \<and>
           cumulativeProbability (rs ! i) = None \<and>
           (\<forall>ms'. (\<forall>j<i. runInference ms' (take j tokenIds) = runInference ms (take j tokenIds)) \<longrightarrow>
              (\<exists>rs' tr''. analyzeTokenSequence ts ms' eng tokenIds emptyTrace = (Inr rs', tr'') \<and>
                 take i rs' = take i rs)) \<and>
           inferenceCalls tr' =
             map (\<lambda>j. take j tokenIds) [min 3 (length tokenIds)..<length tokenIds]"
proof -
  let ?rs = "scanResults ts ms tokenIds"
  have "tokenizer ts \<noteq> None"
  proof
    assume "tokenizer ts = None"
    then have "inferenceCalls (snd (analyzeTokenSequence ts ms eng tokenIds emptyTrace)) =
        inferenceCalls emptyTrace"
      by (rule analyzeTokenSequence_no_tokenizer_no_calls)
    with assms(3) show False by (simp add: emptyTrace_def)
  qed
  then obtain tk where loaded: "tokenizer ts = Some tk" by auto
  obtain tr' where run: "analyzeTokenSequence ts ms eng tokenIds emptyTrace = (Inr ?rs, tr')"
    and calls: "inferenceCalls tr' = inferenceCalls emptyTrace @
             map (\<lambda>j. take j tokenIds) [min INITIAL_TOKENS_COUNT (length tokenIds)..<length tokenIds]"
    using analyzeTokenSequence_returns [OF loaded, of ms eng tokenIds emptyTrace] by blast
  have "min INITIAL_TOKENS_COUNT (length tokenIds) \<le> i"
    using assms(1) by (simp add: INITIAL_TOKENS_COUNT_def)
  then have "?rs ! i = predictedResult ms tokenIds i (projr (decodeToken ts (tokenIds ! i)))"
    using assms(2) by (rule nth_scanResults_predicted)
  then have at_i: "?rs ! i =
      \<lparr>position = i, token = projr (decodeToken ts (tokenIds ! i)), tokenId = tokenIds ! i,
       rank = None, probability = None, cumulativeProbability = None, isInitial = False\<rparr>"
    using predictedResult_failure [OF assms(4)] by simp
  have earlier: "\<exists>rs' tr''. analyzeTokenSequence ts ms' eng tokenIds emptyTrace = (Inr rs', tr'') \<and>
                 take i rs' = take i ?rs"
    if "\<forall>j<i. runInference ms' (take j tokenIds) = runInference ms (take j tokenIds)" for ms'
  proof -
    obtain tr'' where "analyzeTokenSequence ts ms' eng tokenIds emptyTrace =
        (Inr (scanResults ts ms' tokenIds), tr'')"
      using analyzeTokenSequence_returns [OF loaded, of ms' eng tokenIds emptyTrace] by blast
    moreover have "take i (scanResults ts ms' tokenIds) = take i ?rs"
      using that by (rule take_scanResults_cong)
    ultimately show ?thesis by blast
  qed
  have "length ?rs = length tokenIds" by simp
  moreover have "position (?rs ! i) = i" "tokenId (?rs ! i) = tokenIds ! i"
    "\<not> isInitial (?rs ! i)" "rank (?rs ! i) = None" "probability (?rs ! i) = None"
    "cumulativeProbability (?rs ! i) = None"
    by (simp_all add: at_i)
  moreover have "inferenceCalls tr' =
             map (\<lambda>j. take j tokenIds) [min 3 (length tokenIds)..<length tokenIds]"
    using calls by (simp add: INITIAL_TOKENS_COUNT_def emptyTrace_def)
  ultimately show ?thesis
    using run earlier by blast
qed

text \<open>
  An instance: the scenario of five tokens in which the predictor throws for position 4.
\<close>

theorem analyzeTokenSequence_inference_failure_witness:
  "take 4 [1, 2, 3, 2, 1] \<in>
     set (inferenceCalls (snd (analyzeTokenSequence demoTokenizer demoModel idleEngine
       [1, 2, 3, 2, 1] emptyTrace))) \<and>
   runInference demoModel (take 4 [1, 2, 3, 2, 1]) = Inl (Error ''Inference failed: backend'') \<and>
   (\<exists>rs tr'. analyzeTokenSequence demoTokenizer demoModel idleEngine [1, 2, 3, 2, 1] emptyTrace
        = (Inr rs, tr') \<and>
      length rs = 5 \<and> \<not> isInitial (rs ! 4) \<and> rank (rs ! 4) = None \<and>
      probability (rs ! 4) = None \<and> cumulativeProbability (rs ! 4) = None \<and>
      inferenceCalls tr' = [[1, 2, 3], [1, 2, 3, 2]])"
proof -
  have loaded: "tokenizer demoTokenizer =
      Some \<lparr>tk_encode = Some (\<lambda>text. Inr (map (\<lambda>c. int (of_char c)) text)),
            tk_decode = Some (\<lambda>ids. Inr ''tok''), tk_decodeToken = None\<rparr>"
    by (simp add: demoTokenizer_def)
  have u: "[min INITIAL_TOKENS_COUNT (length [1, 2, 3, 2, 1 :: int])..<length [1, 2, 3, 2, 1 :: int]]
      = [3, 4]"
    by (simp add: upt_rec INITIAL_TOKENS_COUNT_def)
  have u': "[min 3 (length [1, 2, 3, 2, 1 :: int])..<length [1, 2, 3, 2, 1 :: int]] = [3, 4]"
    by (simp add: upt_rec)
  have h1: "min 3 (length [1, 2, 3, 2, 1 :: int]) \<le> 4" by simp
  have h2: "4 < length [1, 2, 3, 2, 1 :: int]" by simp
  have h3: "take 4 [1, 2, 3, 2, 1] \<in>
     set (inferenceCalls (snd (analyzeTokenSequence demoTokenizer demoModel idleEngine
       [1, 2, 3, 2, 1] emptyTrace)))"
    unfolding analyzeTokenSequence_loaded(2) [OF loaded] u
    by (simp add: emptyTrace_def)
  have h4: "runInference demoModel (take 4 [1, 2, 3, 2, 1]) = Inl (Error ''Inference failed: backend'')"
    by (simp add: demoModel_def)
  from analyzeTokenSequence_inference_failure [OF h1 h2 h3 h4]
  obtain rs tr' where
    "analyzeTokenSequence demoTokenizer demoModel idleEngine [1, 2, 3, 2, 1] emptyTrace = (Inr rs, tr')"
    "length rs = length [1, 2, 3, 2, 1 :: int]" "\<not> isInitial (rs ! 4)" "rank (rs ! 4) = None"
    "probability (rs ! 4) = None" "cumulativeProbability (rs ! 4) = None"
    "inferenceCalls tr' =
       map (\<lambda>j. take j [1, 2, 3, 2, 1]) [min 3 (length [1, 2, 3, 2, 1 :: int])..<length [1, 2, 3, 2, 1 :: int]]"
    by blast
  moreover from this(7) have "inferenceCalls tr' = [[1, 2, 3], [1, 2, 3, 2]]"
    unfolding u' by simp
  ultimately show ?thesis
    using h3 h4 by auto
qed

end
